theory Spec2Isabelle
  imports Complex_Main "HOL-Library.AList"
begin

section \<open>The render worker (requestWorker.py)\<close>

text \<open>
  The worker polls a job source, claims the render requests assigned to it, runs the
  external renderer for each of them and reports status and progress.  Everything the
  worker does is an interaction with something outside of it: the HTTP client, the request
  database, the spawned process, the clock.  The model makes these interactions explicit:
  the answers of the outside are the fields of an \<open>environment\<close>, the calls the worker
  makes are appended to a \<open>trace\<close>, and every function passes the \<open>world\<close> along.
\<close>

subsection \<open>Data\<close>

text \<open>
  Modelled from the spec: \<open>RenderStatus\<close> is declared in util/renderRequest.py, which is
  not part of the sources at hand.  The worker names four of its members; the state
  machine of the specification has exactly these four states.
\<close>

datatype RenderStatus = ready_to_start | in_progress | finished | errored

text \<open>
  Modelled from the spec: \<open>RenderRequest\<close> is declared in util/renderRequest.py.  The
  record holds the attributes the worker reads: identity, owner, status and the three
  asset paths handed to the renderer.
\<close>

record RenderRequest =
  uid :: string
  worker :: string
  status :: RenderStatus
  umap_path :: string
  useq_path :: string
  uconfig_path :: string

text \<open>
  Exceptions.  \<open>CalledProcessError returncode cmd output\<close> is the one the worker raises
  itself; \<open>OtherException\<close> stands for every other subclass of \<open>Exception\<close>, raised by a
  collaborator (a failed HTTP call, a missing executable, a database error, a decoding
  error).  Exceptions outside of \<open>Exception\<close> (a keyboard interrupt) are not modelled.
\<close>

datatype exn = CalledProcessError int string string | OtherException string

text \<open>
  The spawned process, as the worker observes it: what the \<open>k\<close>-th call of \<open>poll()\<close>
  returns (\<open>None\<close> while the process is alive, the exit code afterwards) and what
  \<open>communicate()\<close> reads from the two pipes.
\<close>

record process =
  poll_results :: "nat \<Rightarrow> int option"
  stdout_data :: string
  stderr_data :: string

text \<open>The calls the worker makes, in the order it makes them.\<close>

datatype event =
    RequestUpdate string int RenderStatus string
      \<comment> \<open>\<open>rrequest.update(progress, status, time_estimate)\<close> on the request with this uid\<close>
  | ClientUpdateRequest string int RenderStatus string
      \<comment> \<open>\<open>client.update_request(uid, progress, status, time_estimate)\<close>\<close>
  | Popen "string list" "(string \<times> string) list"
      \<comment> \<open>\<open>subprocess.Popen(command, env=env)\<close>\<close>
  | Sleep nat
      \<comment> \<open>\<open>time.sleep(seconds)\<close>\<close>

text \<open>
  The outside.  Fallible calls are numbered in the order they are made (\<open>calls\<close>) and
  readings of the clock likewise (\<open>clock_reads\<close>); the environment answers by number.
\<close>

record environment =
  get_all_requests :: "nat \<Rightarrow> exn + RenderRequest list"
    \<comment> \<open>\<open>client.get_all_requests()\<close>: an exception, or the requests on the server\<close>
  database :: "RenderRequest list"
    \<comment> \<open>the request database read by \<open>RenderRequest.from_db\<close>\<close>
  update_raises :: "nat \<Rightarrow> exn option"
    \<comment> \<open>whether a status write (\<open>rrequest.update\<close>, \<open>client.update_request\<close>) raises\<close>
  popen_result :: "nat \<Rightarrow> exn + process"
    \<comment> \<open>\<open>subprocess.Popen\<close>: an exception (executable not found), or the process\<close>
  clock :: "nat \<Rightarrow> real"
    \<comment> \<open>successive readings of \<open>time.time()\<close>, in seconds\<close>
  bytes_decode :: "string \<Rightarrow> exn + string"
    \<comment> \<open>\<open>bytes.decode()\<close>: a decoding error, or the text\<close>
  os_environ :: "(string \<times> string) list"
  MODULE_PATH :: string

record world =
  calls :: nat
  clock_reads :: nat
  trace :: "event list"

text \<open>
  A computation returns a value, raises, or is still running when the bound on the
  number of loop iterations is reached (both loops of the worker may run forever).
\<close>

datatype 'a outcome = Returns 'a | Raises exn | Running

definition bind :: "'a outcome \<times> world \<Rightarrow> ('a \<Rightarrow> world \<Rightarrow> 'b outcome \<times> world) \<Rightarrow> 'b outcome \<times> world" where
  "bind m f = (case m of
       (Returns x, w) \<Rightarrow> f x w
     | (Raises ex, w) \<Rightarrow> (Raises ex, w)
     | (Running, w) \<Rightarrow> (Running, w))"

subsection \<open>Configuration\<close>

definition WORKER_NAME :: string where
  "WORKER_NAME = ''RENDER_MACHINE_01''"

definition UNREAL_EXE :: string where
  "UNREAL_EXE = ''C:'' @ CHR 0x5C # ''Program Files'' @ CHR 0x5C # ''Epic Games'' @ CHR 0x5C #
     ''UE_5.5'' @ CHR 0x5C # ''Engine'' @ CHR 0x5C # ''Binaries'' @ CHR 0x5C # ''Win64'' @ CHR 0x5C #
     ''UnrealEditor.exe''"

definition UNREAL_PROJECT :: string where
  "UNREAL_PROJECT = ''D:'' @ CHR 0x5C # ''Documentos publicos'' @ CHR 0x5C # ''Unreal Projects'' @
     CHR 0x5C # ''MeerkatDemo'' @ CHR 0x5C # ''MeerkatDemo.uproject''"

subsection \<open>Python primitives\<close>

text \<open>
  Times are real numbers of seconds: the rounding of floating-point arithmetic is not
  modelled.  \<open>int(x)\<close> on a float truncates towards zero.
\<close>

definition py_int :: "real \<Rightarrow> int" where
  "py_int x = (if 0 \<le> x then \<lfloor>x\<rfloor> else - \<lfloor>- x\<rfloor>)"

text \<open>\<open>'{}'.format(i)\<close> on an integer: its decimal digits, with a minus sign if negative.\<close>

fun digits :: "nat \<Rightarrow> string" where
  "digits n = (if n < 10 then [''0123456789'' ! n]
               else digits (n div 10) @ [''0123456789'' ! (n mod 10)])"

declare digits.simps [simp del]

definition str_int :: "int \<Rightarrow> string" where
  "str_int i = (if i < 0 then CHR ''-'' # digits (nat (- i)) else digits (nat i))"

subsection \<open>Collaborators\<close>

definition time_time :: "environment \<Rightarrow> world \<Rightarrow> real outcome \<times> world" where
  "time_time e w = (Returns (clock e (clock_reads w)), w\<lparr>clock_reads := Suc (clock_reads w)\<rparr>)"

definition time_sleep :: "nat \<Rightarrow> world \<Rightarrow> world" where
  "time_sleep seconds w = w\<lparr>trace := trace w @ [Sleep seconds]\<rparr>"

definition client_get_all_requests :: "environment \<Rightarrow> world \<Rightarrow> RenderRequest list outcome \<times> world" where
  "client_get_all_requests e w =
     (case get_all_requests e (calls w) of
        Inl ex \<Rightarrow> (Raises ex, w\<lparr>calls := Suc (calls w)\<rparr>)
      | Inr rrequests \<Rightarrow> (Returns rrequests, w\<lparr>calls := Suc (calls w)\<rparr>))"

definition client_update_request ::
    "environment \<Rightarrow> string \<Rightarrow> int \<Rightarrow> RenderStatus \<Rightarrow> string \<Rightarrow> world \<Rightarrow> unit outcome \<times> world" where
  "client_update_request e u progress st time_estimate w =
     (let w' = w\<lparr>calls := Suc (calls w),
                 trace := trace w @ [ClientUpdateRequest u progress st time_estimate]\<rparr>
      in case update_raises e (calls w) of
           Some ex \<Rightarrow> (Raises ex, w')
         | None \<Rightarrow> (Returns (), w'))"

text \<open>
  Modelled from the spec: \<open>RenderRequest.from_db\<close> and \<open>RenderRequest.update\<close> are
  defined in util/renderRequest.py.  \<open>from_db\<close> loads the request with the given
  identifier from the database and fails when there is none; \<open>update\<close> writes progress,
  status and time estimate of that request, and may fail.
\<close>

definition from_db :: "environment \<Rightarrow> string \<Rightarrow> world \<Rightarrow> RenderRequest outcome \<times> world" where
  "from_db e u w =
     (case find (\<lambda>r. uid r = u) (database e) of
        None \<Rightarrow> (Raises (OtherException ''FileNotFoundError''), w)
      | Some rrequest \<Rightarrow> (Returns rrequest, w))"

definition rrequest_update ::
    "environment \<Rightarrow> RenderRequest \<Rightarrow> int \<Rightarrow> RenderStatus \<Rightarrow> string \<Rightarrow> world \<Rightarrow> unit outcome \<times> world" where
  "rrequest_update e rrequest progress st time_estimate w =
     (let w' = w\<lparr>calls := Suc (calls w),
                 trace := trace w @ [RequestUpdate (uid rrequest) progress st time_estimate]\<rparr>
      in case update_raises e (calls w) of
           Some ex \<Rightarrow> (Raises ex, w')
         | None \<Rightarrow> (Returns (), w'))"

definition subprocess_Popen ::
    "environment \<Rightarrow> string list \<Rightarrow> (string \<times> string) list \<Rightarrow> world \<Rightarrow> process outcome \<times> world" where
  "subprocess_Popen e command env w =
     (let w' = w\<lparr>calls := Suc (calls w), trace := trace w @ [Popen command env]\<rparr>
      in case popen_result e (calls w) of
           Inl ex \<Rightarrow> (Raises ex, w')
         | Inr proc \<Rightarrow> (Returns proc, w'))"

definition decode :: "environment \<Rightarrow> string \<Rightarrow> world \<Rightarrow> string outcome \<times> world" where
  "decode e bs w = (case bytes_decode e bs of Inl ex \<Rightarrow> (Raises ex, w) | Inr s \<Rightarrow> (Returns s, w))"

subsection \<open>The worker\<close>

definition send_status_update ::
    "environment \<Rightarrow> string \<Rightarrow> int \<Rightarrow> string \<Rightarrow> RenderStatus \<Rightarrow> world \<Rightarrow> unit outcome \<times> world" where
  "send_status_update e u progress time_estimate st w =
     client_update_request e u progress st time_estimate w"

text \<open>The two estimates computed on a heartbeat, from the seconds elapsed since the spawn.\<close>

definition progress_of :: "real \<Rightarrow> int" where
  "progress_of elapsed_time = min 100 (py_int ((elapsed_time / 60) * 100))"

definition time_estimate_of :: "real \<Rightarrow> string" where
  "time_estimate_of elapsed_time = str_int (py_int (60 - elapsed_time)) @ ''s''"

text \<open>
  The loop \<open>while proc.poll() is None\<close> of \<open>render\<close>.  \<open>k\<close> counts the calls of
  \<open>poll()\<close> made so far; the first argument bounds the number of iterations.  The loop
  returns the exit code that ended it, which is what \<open>proc.returncode\<close> then holds.
\<close>

fun heartbeat :: "nat \<Rightarrow> environment \<Rightarrow> string \<Rightarrow> real \<Rightarrow> process \<Rightarrow> nat \<Rightarrow> world \<Rightarrow> int outcome \<times> world" where
  "heartbeat 0 e u start_time proc k w = (Running, w)"
| "heartbeat (Suc n) e u start_time proc k w =
     (case poll_results proc k of
        Some returncode \<Rightarrow> (Returns returncode, w)
      | None \<Rightarrow>
          bind (time_time e w) (\<lambda>now w1.
            let elapsed_time = now - start_time;
                progress = progress_of elapsed_time;
                time_estimate = time_estimate_of elapsed_time
            in bind (send_status_update e u progress time_estimate in_progress w1) (\<lambda>_ w2.
                 heartbeat n e u start_time proc (Suc k) (time_sleep 5 w2))))"

text \<open>The argument list and the environment of the spawned process (lines 55 to 79).\<close>

definition render_command :: "string \<Rightarrow> string \<Rightarrow> string \<Rightarrow> string \<Rightarrow> string list" where
  "render_command u umap useq uconfig = [
     UNREAL_EXE,
     UNREAL_PROJECT,
     umap,
     ''-JobId='' @ u,
     ''-LevelSequence='' @ useq,
     ''-MoviePipelineConfig='' @ uconfig,
     ''-game'',
     ''-MoviePipelineLocalExecutorClass=/Script/MovieRenderPipelineCore.MoviePipelinePythonHostExecutor'',
     ''-ExecutorPythonClass=/Engine/PythonTypes.MoviePipelineExampleRuntimeExecutor'',
     ''-windowed'',
     ''-resX=1280'',
     ''-resY=720'',
     ''-StdOut'',
     ''-FullStdOutLogOutput'']"

definition render_env :: "environment \<Rightarrow> (string \<times> string) list" where
  "render_env e = AList.update ''UE_PYTHONPATH'' (MODULE_PATH e) (os_environ e)"

definition render ::
    "nat \<Rightarrow> environment \<Rightarrow> string \<Rightarrow> string \<Rightarrow> string \<Rightarrow> string \<Rightarrow> world
       \<Rightarrow> (int \<times> string \<times> string) outcome \<times> world" where
  "render n e u umap useq uconfig w =
     (let command = render_command u umap useq uconfig;
          env = render_env e
      in bind (subprocess_Popen e command env w) (\<lambda>proc w1.
         bind (time_time e w1) (\<lambda>start_time w2.
         bind (heartbeat n e u start_time proc 0 w2) (\<lambda>returncode w3.
           (Returns (returncode, stdout_data proc, stderr_data proc), w3)))))"

text \<open>The body of the \<open>try\<close> statement of the main loop (lines 121 to 145).\<close>

definition try_body :: "nat \<Rightarrow> environment \<Rightarrow> string \<Rightarrow> RenderRequest \<Rightarrow> world \<Rightarrow> unit outcome \<times> world" where
  "try_body n e u rrequest w =
     bind (rrequest_update e rrequest 0 in_progress ''Calculando...'' w) (\<lambda>_ w1.
     bind (render n e u (umap_path rrequest) (useq_path rrequest) (uconfig_path rrequest) w1)
       (\<lambda>(returncode, stdout, stderr) w2.
          if returncode \<noteq> 0
          then bind (decode e stderr w2) (\<lambda>output w3.
                 (Raises (CalledProcessError returncode ''Unreal Engine render process failed'' output), w3))
          else rrequest_update e rrequest 100 finished ''N/A'' w2))"

text \<open>
  The body of \<open>for uid in uids\<close> (lines 117 to 161): \<open>from_db\<close> outside of the \<open>try\<close>,
  then the \<open>try\<close> statement with its two handlers.
\<close>

definition process_job :: "nat \<Rightarrow> environment \<Rightarrow> string \<Rightarrow> world \<Rightarrow> unit outcome \<times> world" where
  "process_job n e u w =
     bind (from_db e u w) (\<lambda>rrequest w0.
       case try_body n e u rrequest w0 of
         (Returns _, w1) \<Rightarrow> (Returns (), w1)
       | (Running, w1) \<Rightarrow> (Running, w1)
       | (Raises (CalledProcessError returncode cmd output), w1) \<Rightarrow>
           rrequest_update e rrequest 0 errored ''0'' w1
       | (Raises (OtherException msg), w1) \<Rightarrow>
           rrequest_update e rrequest 0 errored ''0'' w1)"

fun process_jobs :: "nat \<Rightarrow> environment \<Rightarrow> string list \<Rightarrow> world \<Rightarrow> unit outcome \<times> world" where
  "process_jobs n e [] w = (Returns (), w)"
| "process_jobs n e (u # uids) w =
     bind (process_job n e u w) (\<lambda>_ w1. process_jobs n e uids w1)"

text \<open>The list comprehension of lines 109 to 111.\<close>

definition eligible_uids :: "RenderRequest list \<Rightarrow> string list" where
  "eligible_uids rrequests =
     map uid (filter (\<lambda>rrequest. worker rrequest = WORKER_NAME \<and> status rrequest = ready_to_start)
                rrequests)"

text \<open>One iteration of \<open>while True\<close> (lines 102 to 165).\<close>

definition one_pass :: "nat \<Rightarrow> environment \<Rightarrow> world \<Rightarrow> unit outcome \<times> world" where
  "one_pass n e w =
     bind (client_get_all_requests e w) (\<lambda>rrequests w1.
       let uids = eligible_uids rrequests
       in bind (process_jobs n e uids w1) (\<lambda>_ w2.
            (Returns (), time_sleep 10 w2)))"

text \<open>
  \<open>while True\<close>, bounded to \<open>passes\<close> iterations: it never returns; it is still running
  when the bound is reached, unless an exception has ended the process before.
\<close>

fun worker_loop :: "nat \<Rightarrow> nat \<Rightarrow> environment \<Rightarrow> world \<Rightarrow> unit outcome \<times> world" where
  "worker_loop 0 n e w = (Running, w)"
| "worker_loop (Suc passes) n e w =
     bind (one_pass n e w) (\<lambda>_ w1. worker_loop passes n e w1)"

subsection \<open>Observations on traces\<close>

text \<open>The progress values of the heartbeat updates of a trace, in the order they were sent.\<close>

fun heartbeat_progress :: "event list \<Rightarrow> int list" where
  "heartbeat_progress [] = []"
| "heartbeat_progress (ClientUpdateRequest u progress st time_estimate # evs) =
     progress # heartbeat_progress evs"
| "heartbeat_progress (ev # evs) = heartbeat_progress evs"

text \<open>
  The status update sent by the heartbeat that takes clock reading number \<open>i\<close>, and the
  worlds after a heartbeat update, after a spawn and after a write through the request
  object.
\<close>

definition beat :: "environment \<Rightarrow> string \<Rightarrow> real \<Rightarrow> nat \<Rightarrow> event" where
  "beat e u start_time i =
     ClientUpdateRequest u (progress_of (clock e i - start_time)) in_progress
       (time_estimate_of (clock e i - start_time))"

definition after_beat :: "environment \<Rightarrow> string \<Rightarrow> real \<Rightarrow> world \<Rightarrow> world" where
  "after_beat e u start_time w =
     w\<lparr>clock_reads := Suc (clock_reads w), calls := Suc (calls w),
       trace := trace w @ [beat e u start_time (clock_reads w)]\<rparr>"

definition spawned :: "environment \<Rightarrow> string \<Rightarrow> string \<Rightarrow> string \<Rightarrow> string \<Rightarrow> world \<Rightarrow> world" where
  "spawned e u umap useq uconfig w =
     w\<lparr>calls := Suc (calls w),
       trace := trace w @ [Popen (render_command u umap useq uconfig) (render_env e)]\<rparr>"

definition updated :: "string \<Rightarrow> int \<Rightarrow> RenderStatus \<Rightarrow> string \<Rightarrow> world \<Rightarrow> world" where
  "updated u progress st time_estimate w =
     w\<lparr>calls := Suc (calls w), trace := trace w @ [RequestUpdate u progress st time_estimate]\<rparr>"

text \<open>
  The calls of one monitoring loop that starts with clock reading number \<open>c\<close>: sleeps and
  heartbeat updates, whose progress values are those of the successive readings.
\<close>

definition heartbeats :: "environment \<Rightarrow> string \<Rightarrow> real \<Rightarrow> nat \<Rightarrow> event list \<Rightarrow> bool" where
  "heartbeats e u start_time c hb \<longleftrightarrow>
     (\<forall>ev\<in>set hb. ev = Sleep 5 \<or> (\<exists>j\<ge>c. ev = beat e u start_time j)) \<and>
     (\<exists>m. heartbeat_progress hb = map (\<lambda>j. progress_of (clock e (c + j) - start_time)) [0..<m])"

text \<open>
  The calls made while handling one job: none when the request is not in the database;
  the two writes when claiming the job fails; otherwise the claim, the spawn, the
  heartbeats and the final writes.
\<close>

definition job_trace :: "environment \<Rightarrow> string \<Rightarrow> world \<Rightarrow> event list \<Rightarrow> bool" where
  "job_trace e u w evs \<longleftrightarrow>
     evs = [] \<or>
     (update_raises e (calls w) \<noteq> None \<and>
      evs = [RequestUpdate u 0 in_progress ''Calculando...'', RequestUpdate u 0 errored ''0'']) \<or>
     (update_raises e (calls w) = None \<and>
      (\<exists>a b c hb fin.
         evs = RequestUpdate u 0 in_progress ''Calculando...'' #
               Popen (render_command u a b c) (render_env e) # hb @ fin \<and>
         heartbeats e u (clock e (clock_reads w)) (Suc (clock_reads w)) hb \<and>
         set fin \<subseteq> {RequestUpdate u 100 finished ''N/A'', RequestUpdate u 0 errored ''0''}))"

text \<open>The calls that handling job \<open>u\<close> can make, one by one.\<close>

definition job_event :: "environment \<Rightarrow> string \<Rightarrow> event \<Rightarrow> bool" where
  "job_event e u ev \<longleftrightarrow>
     ev = Sleep 5 \<or>
     (\<exists>a b c. ev = Popen (render_command u a b c) (render_env e)) \<or>
     ev = RequestUpdate u 0 in_progress ''Calculando...'' \<or>
     ev = RequestUpdate u 100 finished ''N/A'' \<or>
     ev = RequestUpdate u 0 errored ''0'' \<or>
     (\<exists>i j. i < j \<and> ev = beat e u (clock e i) j)"

subsection \<open>Concrete runs\<close>

text \<open>
  An initial world, three requests (the second one assigned to another machine), a
  process that is alive for two polls and then exits with code 0, and an environment in
  which every call succeeds and the clock advances by five seconds from reading to
  reading.
\<close>

definition w0 :: world where "w0 = \<lparr>calls = 0, clock_reads = 0, trace = []\<rparr>"

definition job1 :: RenderRequest where
  "job1 = \<lparr>uid = ''J1'', worker = ''RENDER_MACHINE_01'', status = ready_to_start,
     umap_path = ''/Game/Map'', useq_path = ''/Game/Seq'', uconfig_path = ''/Game/Cfg''\<rparr>"

definition job2 :: RenderRequest where
  "job2 = \<lparr>uid = ''J2'', worker = ''RENDER_MACHINE_02'', status = ready_to_start,
     umap_path = ''/Game/Map'', useq_path = ''/Game/Seq'', uconfig_path = ''/Game/Cfg''\<rparr>"

definition job3 :: RenderRequest where
  "job3 = \<lparr>uid = ''J3'', worker = ''RENDER_MACHINE_01'', status = ready_to_start,
     umap_path = ''/Game/Map'', useq_path = ''/Game/Seq'', uconfig_path = ''/Game/Cfg''\<rparr>"

definition proc_ok :: process where
  "proc_ok = \<lparr>poll_results = (\<lambda>k. if k < 2 then None else Some 0),
     stdout_data = ''done'', stderr_data = []\<rparr>"

definition env_ok :: environment where
  "env_ok = \<lparr>get_all_requests = (\<lambda>_. Inr [job1, job2]), database = [job1, job2],
     update_raises = (\<lambda>_. None), popen_result = (\<lambda>_. Inr proc_ok),
     clock = (\<lambda>i. 1000 + 5 * real i), bytes_decode = Inr, os_environ = [],
     MODULE_PATH = ''/worker''\<rparr>"

text \<open>The same environment with a clock that shows 60.5 seconds more from the second reading on.\<close>

definition env_late :: environment where
  "env_late = env_ok\<lparr>clock := (\<lambda>i. if i = 0 then 1000 else 1000 + 121 / 2)\<rparr>"

text \<open>With a clock that is set back by 90 seconds after the second reading.\<close>

definition env_back :: environment where
  "env_back = env_ok\<lparr>clock := (\<lambda>i. if i = 0 then 1000 else if i = 1 then 1030 else 940)\<rparr>"

text \<open>With a process that exits with code 1 on the second poll.\<close>

definition env_fail :: environment where
  "env_fail = env_ok\<lparr>popen_result :=
     (\<lambda>_. Inr \<lparr>poll_results = (\<lambda>k. if k < 1 then None else Some 1),
               stdout_data = [], stderr_data = ''crash''\<rparr>)\<rparr>"

text \<open>With two eligible requests and a job source that rejects every status write.\<close>

definition env_down :: environment where
  "env_down = env_ok\<lparr>get_all_requests := (\<lambda>_. Inr [job1, job3]), database := [job1, job3],
     update_raises := (\<lambda>_. Some (OtherException ''ConnectionError''))\<rparr>"



section \<open>Properties\<close>

subsection \<open>Auxiliary facts\<close>

lemma bind_outcome_simps [simp]:
  "bind (Returns x, w) f = f x w"
  "bind (Raises ex, w) f = (Raises ex, w)"
  "bind (Running, w) f = (Running, w)"
  by (simp_all add: bind_def)

lemma time_sleep_simps [simp]:
  "trace (time_sleep s w) = trace w @ [Sleep s]"
  "calls (time_sleep s w) = calls w"
  "clock_reads (time_sleep s w) = clock_reads w"
  by (simp_all add: time_sleep_def)

lemma after_beat_simps [simp]:
  "trace (after_beat e u st w) = trace w @ [beat e u st (clock_reads w)]"
  "calls (after_beat e u st w) = Suc (calls w)"
  "clock_reads (after_beat e u st w) = Suc (clock_reads w)"
  by (simp_all add: after_beat_def)

lemma heartbeat_alive:
  assumes "poll_results proc k = None"
  shows "heartbeat (Suc n) e u st proc k w =
     (case update_raises e (calls w) of
        Some ex \<Rightarrow> (Raises ex, after_beat e u st w)
      | None \<Rightarrow> heartbeat n e u st proc (Suc k) (time_sleep 5 (after_beat e u st w)))"
  using assms
  by (simp add: time_time_def send_status_update_def client_update_request_def after_beat_def
      beat_def Let_def split: option.splits)

lemma heartbeat_exited:
  "poll_results proc k = Some rc \<Longrightarrow> heartbeat (Suc n) e u st proc k w = (Returns rc, w)"
  by simp

lemma heartbeat_emits:
  "\<exists>evs. trace (snd (heartbeat n e u st proc k w)) = trace w @ evs \<and>
     (\<forall>ev\<in>set evs. ev = Sleep 5 \<or> (\<exists>j\<ge>clock_reads w. ev = beat e u st j))"
proof (induction n arbitrary: k w)
  case 0
  show ?case by simp
next
  case (Suc n)
  show ?case
  proof (cases "poll_results proc k")
    case (Some rc)
    then show ?thesis by simp
  next
    case None
    note alive = heartbeat_alive [OF None, of n e u st w]
    show ?thesis
    proof (cases "update_raises e (calls w)")
      case (Some ex)
      with alive have "trace (snd (heartbeat (Suc n) e u st proc k w)) = trace w @ [beat e u st (clock_reads w)]"
        by simp
      then show ?thesis by auto
    next
      case None
      from Suc.IH [of "Suc k" "time_sleep 5 (after_beat e u st w)"]
      obtain evs where evs: "trace (snd (heartbeat n e u st proc (Suc k) (time_sleep 5 (after_beat e u st w))))
            = trace w @ beat e u st (clock_reads w) # Sleep 5 # evs"
          "\<forall>ev\<in>set evs. ev = Sleep 5 \<or> (\<exists>j\<ge>Suc (clock_reads w). ev = beat e u st j)"
        by auto
      have "\<forall>ev\<in>set (beat e u st (clock_reads w) # Sleep 5 # evs).
               ev = Sleep 5 \<or> (\<exists>j\<ge>clock_reads w. ev = beat e u st j)"
        using evs(2) by (auto intro: Suc_leD)
      with evs(1) alive None show ?thesis
        by (metis option.simps(4))
    qed
  qed
qed

lemma heartbeat_Returns_exited:
  "fst (heartbeat n e u st proc k w) = Returns rc \<Longrightarrow>
     \<exists>m<n. (\<forall>j<m. poll_results proc (k + j) = None) \<and> poll_results proc (k + m) = Some rc"
proof (induction n arbitrary: k w)
  case 0
  then show ?case by simp
next
  case (Suc n)
  show ?case
  proof (cases "poll_results proc k")
    case (Some rc')
    with Suc.prems have "rc' = rc" by simp
    with Some have "(\<forall>j<0. poll_results proc (k + j) = None) \<and> poll_results proc (k + 0) = Some rc"
      by simp
    then show ?thesis by blast
  next
    case None
    note alive = heartbeat_alive [OF None, of n e u st w]
    show ?thesis
    proof (cases "update_raises e (calls w)")
      case (Some ex)
      with alive Suc.prems show ?thesis by simp
    next
      case None': None
      with alive Suc.prems
      have "fst (heartbeat n e u st proc (Suc k) (time_sleep 5 (after_beat e u st w))) = Returns rc"
        by simp
      from Suc.IH [OF this] obtain m where m: "m < n"
          "\<forall>j<m. poll_results proc (Suc k + j) = None" "poll_results proc (Suc k + m) = Some rc"
        by blast
      have "\<forall>j<Suc m. poll_results proc (k + j) = None"
      proof (intro allI impI)
        fix j assume "j < Suc m"
        then show "poll_results proc (k + j) = None"
          using None m(2) by (cases j) auto
      qed
      moreover have "poll_results proc (k + Suc m) = Some rc" using m(3) by simp
      moreover have "Suc m < Suc n" using m(1) by simp
      ultimately show ?thesis by blast
    qed
  qed
qed

lemma heartbeat_exits_Returns:
  "m < n \<Longrightarrow> \<forall>j<m. poll_results proc (k + j) = None \<and> update_raises e (calls w + j) = None \<Longrightarrow>
     poll_results proc (k + m) = Some rc \<Longrightarrow>
     fst (heartbeat n e u st proc k w) = Returns rc"
proof (induction m arbitrary: n k w)
  case 0
  then obtain n' where "n = Suc n'" by (cases n) auto
  with 0 show ?case by simp
next
  case (Suc m)
  then obtain n' where n: "n = Suc n'" "m < n'" by (cases n) auto
  from Suc.prems(2) have here: "poll_results proc k = None" "update_raises e (calls w) = None"
    by (metis add.right_neutral zero_less_Suc)+
  have later: "\<forall>j<m. poll_results proc (Suc k + j) = None \<and>
      update_raises e (calls (time_sleep 5 (after_beat e u st w)) + j) = None"
    using Suc.prems(2) by (metis Suc_less_eq add_Suc_right add_Suc after_beat_simps(2) time_sleep_simps(2))
  have "poll_results proc (Suc k + m) = Some rc" using Suc.prems(3) by simp
  from Suc.IH [OF n(2) later this] heartbeat_alive [OF here(1), of n' e u st w] here(2) n(1)
  show ?case by simp
qed

lemma upt_Suc_shift: "[0..<Suc m] = 0 # map Suc [0..<m]"
  by (simp add: upt_conv_Cons map_Suc_upt del: upt_Suc)


lemma heartbeat_progress_append:
  "heartbeat_progress (xs @ ys) = heartbeat_progress xs @ heartbeat_progress ys"
  by (induction xs rule: heartbeat_progress.induct) simp_all

lemma heartbeat_progress_beat [simp]:
  "heartbeat_progress (beat e u st j # evs) = progress_of (clock e j - st) # heartbeat_progress evs"
  by (simp add: beat_def)

lemma py_int_mono: "x \<le> y \<Longrightarrow> py_int x \<le> py_int y"
proof -
  assume le: "x \<le> y"
  consider "0 \<le> x" | "x < 0" "0 \<le> y" | "y < 0" by linarith
  then show ?thesis
  proof cases
    case 1
    with le have "0 \<le> y" by simp
    with 1 le show ?thesis by (simp add: py_int_def floor_mono)
  next
    case 2
    have "0 \<le> \<lfloor>- x\<rfloor>" using 2(1) by simp
    moreover have "0 \<le> \<lfloor>y\<rfloor>" using 2(2) by simp
    ultimately have "- \<lfloor>- x\<rfloor> \<le> \<lfloor>y\<rfloor>" by linarith
    with 2 show ?thesis by (simp add: py_int_def)
  next
    case 3
    with le have "x < 0" by simp
    moreover have "\<lfloor>- y\<rfloor> \<le> \<lfloor>- x\<rfloor>" using le by (intro floor_mono) simp
    ultimately show ?thesis using 3 by (simp add: py_int_def)
  qed
qed

lemma py_int_nonneg: "0 \<le> x \<Longrightarrow> 0 \<le> py_int x"
  by (simp add: py_int_def)

lemma progress_of_mono: "x \<le> y \<Longrightarrow> progress_of x \<le> progress_of y"
proof -
  assume "x \<le> y"
  then have "x / 60 * 100 \<le> y / 60 * 100" by simp
  then have "py_int (x / 60 * 100) \<le> py_int (y / 60 * 100)" by (rule py_int_mono)
  then show ?thesis by (simp add: progress_of_def)
qed

lemma progress_of_le_100: "progress_of x \<le> 100"
  by (simp add: progress_of_def)

lemma progress_of_nonneg: "0 \<le> x \<Longrightarrow> 0 \<le> progress_of x"
  by (simp add: progress_of_def py_int_nonneg)

lemma heartbeat_progress_readings:
  "\<exists>evs m. trace (snd (heartbeat n e u st proc k w)) = trace w @ evs \<and>
     heartbeat_progress evs = map (\<lambda>j. progress_of (clock e (clock_reads w + j) - st)) [0..<m]"
proof (induction n arbitrary: k w)
  case 0
  have "trace (snd (heartbeat 0 e u st proc k w)) = trace w @ [] \<and>
     heartbeat_progress [] = map (\<lambda>j. progress_of (clock e (clock_reads w + j) - st)) [0..<0]"
    by simp
  then show ?case by blast
next
  case (Suc n)
  have stop: ?case if "trace (snd (heartbeat (Suc n) e u st proc k w)) = trace w"
  proof -
    have "trace (snd (heartbeat (Suc n) e u st proc k w)) = trace w @ [] \<and>
       heartbeat_progress [] = map (\<lambda>j. progress_of (clock e (clock_reads w + j) - st)) [0..<0]"
      using that by simp
    then show ?thesis by blast
  qed
  show ?case
  proof (cases "poll_results proc k")
    case (Some rc)
    then show ?thesis by (intro stop) simp
  next
    case None
    note alive = heartbeat_alive [OF None, of n e u st w]
    show ?thesis
    proof (cases "update_raises e (calls w)")
      case (Some ex)
      with alive have "trace (snd (heartbeat (Suc n) e u st proc k w)) = trace w @ [beat e u st (clock_reads w)] \<and>
          heartbeat_progress [beat e u st (clock_reads w)] =
            map (\<lambda>j. progress_of (clock e (clock_reads w + j) - st)) [0..<Suc 0]"
        by simp
      then show ?thesis by blast
    next
      case None': None
      let ?w = "time_sleep 5 (after_beat e u st w)"
      from Suc.IH [of "Suc k" ?w] obtain evs m where
        evs: "trace (snd (heartbeat n e u st proc (Suc k) ?w)) = trace ?w @ evs"
          "heartbeat_progress evs = map (\<lambda>j. progress_of (clock e (clock_reads ?w + j) - st)) [0..<m]"
        by blast
      have "trace (snd (heartbeat (Suc n) e u st proc k w)) =
          trace w @ (beat e u st (clock_reads w) # Sleep 5 # evs)"
        using alive None' evs(1) by simp
      moreover have "heartbeat_progress (beat e u st (clock_reads w) # Sleep 5 # evs) =
          map (\<lambda>j. progress_of (clock e (clock_reads w + j) - st)) [0..<Suc m]"
        using evs(2) by (simp add: upt_Suc_shift comp_def del: upt_Suc)
      ultimately show ?thesis by blast
    qed
  qed
qed

lemma spawned_simps [simp]:
  "trace (spawned e u a b c w) = trace w @ [Popen (render_command u a b c) (render_env e)]"
  "calls (spawned e u a b c w) = Suc (calls w)"
  "clock_reads (spawned e u a b c w) = clock_reads w"
  by (simp_all add: spawned_def)

lemma render_spawn_fails:
  "popen_result e (calls w) = Inl ex \<Longrightarrow> render n e u a b c w = (Raises ex, spawned e u a b c w)"
  by (simp add: render_def subprocess_Popen_def spawned_def Let_def)

lemma render_spawn_ok:
  "popen_result e (calls w) = Inr proc \<Longrightarrow>
     render n e u a b c w =
       bind (heartbeat n e u (clock e (clock_reads w)) proc 0
               ((spawned e u a b c w)\<lparr>clock_reads := Suc (clock_reads w)\<rparr>))
         (\<lambda>returncode w3. (Returns (returncode, stdout_data proc, stderr_data proc), w3))"
  by (simp add: render_def subprocess_Popen_def spawned_def time_time_def Let_def)

lemma snd_bind_Returns: "snd (bind m (\<lambda>x w. (Returns (g x), w))) = snd m"
  by (cases m; cases "fst m") (auto simp: bind_def)

lemma fst_bind_Returns: "fst (bind m (\<lambda>x w. (Returns (g x), w))) = map_outcome g (fst m)"
  by (cases m; cases "fst m") (auto simp: bind_def)

lemma heartbeat_first_beat:
  assumes "poll_results proc k = None"
  shows "\<exists>rest. trace (snd (heartbeat (Suc n) e u st proc k w)) = trace w @ beat e u st (clock_reads w) # rest"
proof (cases "update_raises e (calls w)")
  case (Some ex)
  with heartbeat_alive [OF assms, of n e u st w] show ?thesis by simp
next
  case None
  from heartbeat_emits [of n e u st proc "Suc k" "time_sleep 5 (after_beat e u st w)"]
  obtain evs where "trace (snd (heartbeat n e u st proc (Suc k) (time_sleep 5 (after_beat e u st w))))
      = trace w @ beat e u st (clock_reads w) # Sleep 5 # evs"
    by auto
  with heartbeat_alive [OF assms, of n e u st w] None show ?thesis by simp
qed

lemma time_estimate_late:
  assumes "61 \<le> el"
  shows "time_estimate_of el = CHR ''-'' # digits (nat \<lfloor>el - 60\<rfloor>) @ ''s''"
proof -
  have "1 \<le> \<lfloor>el - 60\<rfloor>" using assms by (simp add: le_floor_iff)
  moreover have "py_int (60 - el) = - \<lfloor>el - 60\<rfloor>" using assms by (simp add: py_int_def)
  ultimately show ?thesis by (simp add: time_estimate_of_def str_int_def)
qed

lemma time_estimate_just_late:
  assumes "60 < el" "el < 61"
  shows "time_estimate_of el = ''0s''"
proof -
  have "\<lfloor>el - 60\<rfloor> = 0" using assms by (simp add: floor_eq_iff)
  moreover have "py_int (60 - el) = - \<lfloor>el - 60\<rfloor>" using assms by (simp add: py_int_def)
  ultimately show ?thesis by (simp add: time_estimate_of_def str_int_def digits.simps)
qed

lemma progress_of_late:
  assumes "60 \<le> el"
  shows "progress_of el = 100"
proof -
  have "100 \<le> el / 60 * 100" using assms by simp
  then have "100 \<le> \<lfloor>el / 60 * 100\<rfloor>" by (simp add: le_floor_iff)
  moreover have "0 \<le> el / 60 * 100" using assms by simp
  ultimately show ?thesis by (simp add: progress_of_def py_int_def)
qed

lemma updated_simps [simp]:
  "trace (updated u p s t w) = trace w @ [RequestUpdate u p s t]"
  "calls (updated u p s t w) = Suc (calls w)"
  "clock_reads (updated u p s t w) = clock_reads w"
  by (simp_all add: updated_def)

lemma rrequest_update_eq:
  "rrequest_update e r p s t w =
     (case update_raises e (calls w) of Some ex \<Rightarrow> Raises ex | None \<Rightarrow> Returns (),
      updated (uid r) p s t w)"
  by (simp add: rrequest_update_def updated_def Let_def split: option.splits)

lemma trace_rrequest_update [simp]:
  "trace (snd (rrequest_update e r p s t w)) = trace w @ [RequestUpdate (uid r) p s t]"
  by (simp add: rrequest_update_eq)

lemma find_uid: "find (\<lambda>r. uid r = u) rs = Some r \<Longrightarrow> uid r = u"
  by (auto simp: find_Some_iff)

lemma process_job_not_found:
  "find (\<lambda>r. uid r = u) (database e) = None \<Longrightarrow>
     process_job n e u w = (Raises (OtherException ''FileNotFoundError''), w)"
  by (simp add: process_job_def from_db_def)

lemma process_job_handler:
  assumes "find (\<lambda>r. uid r = u) (database e) = Some r"
  shows "process_job n e u w =
     (case try_body n e u r w of
        (Returns x, w1) \<Rightarrow> (Returns (), w1)
      | (Running, w1) \<Rightarrow> (Running, w1)
      | (Raises ex, w1) \<Rightarrow> rrequest_update e r 0 errored ''0'' w1)"
  using assms
  by (simp add: process_job_def from_db_def split: prod.splits outcome.splits exn.splits)

lemma try_body_claim_fails:
  "update_raises e (calls w) = Some ex \<Longrightarrow>
     try_body n e u r w = (Raises ex, updated (uid r) 0 in_progress ''Calculando...'' w)"
  by (simp add: try_body_def rrequest_update_eq)

lemma try_body_render_Running:
  "update_raises e (calls w) = None \<Longrightarrow>
   render n e u (umap_path r) (useq_path r) (uconfig_path r)
     (updated (uid r) 0 in_progress ''Calculando...'' w) = (Running, w2) \<Longrightarrow>
   try_body n e u r w = (Running, w2)"
  by (simp add: try_body_def rrequest_update_eq)

lemma try_body_render_Raises:
  "update_raises e (calls w) = None \<Longrightarrow>
   render n e u (umap_path r) (useq_path r) (uconfig_path r)
     (updated (uid r) 0 in_progress ''Calculando...'' w) = (Raises ex, w2) \<Longrightarrow>
   try_body n e u r w = (Raises ex, w2)"
  by (simp add: try_body_def rrequest_update_eq)

lemma try_body_render_nonzero:
  "update_raises e (calls w) = None \<Longrightarrow>
   render n e u (umap_path r) (useq_path r) (uconfig_path r)
     (updated (uid r) 0 in_progress ''Calculando...'' w) = (Returns (returncode, out, err), w2) \<Longrightarrow>
   returncode \<noteq> 0 \<Longrightarrow>
   \<exists>ex. try_body n e u r w = (Raises ex, w2)"
  by (simp add: try_body_def rrequest_update_eq decode_def split: sum.splits)

lemma try_body_render_zero:
  "update_raises e (calls w) = None \<Longrightarrow>
   render n e u (umap_path r) (useq_path r) (uconfig_path r)
     (updated (uid r) 0 in_progress ''Calculando...'' w) = (Returns (0, out, err), w2) \<Longrightarrow>
   try_body n e u r w = rrequest_update e r 100 finished ''N/A'' w2"
  by (simp add: try_body_def rrequest_update_eq)

lemma heartbeats_Nil [simp]: "heartbeats e u st c []"
proof -
  have "heartbeat_progress [] = map (\<lambda>j. progress_of (clock e (c + j) - st)) [0..<0]" by simp
  then show ?thesis unfolding heartbeats_def by (metis empty_iff empty_set)
qed

lemma heartbeat_heartbeats:
  "\<exists>hb. trace (snd (heartbeat n e u st proc k w)) = trace w @ hb \<and> heartbeats e u st (clock_reads w) hb"
proof -
  from heartbeat_emits [of n e u st proc k w] obtain evs where
    a: "trace (snd (heartbeat n e u st proc k w)) = trace w @ evs"
       "\<forall>ev\<in>set evs. ev = Sleep 5 \<or> (\<exists>j\<ge>clock_reads w. ev = beat e u st j)"
    by blast
  from heartbeat_progress_readings [of n e u st proc k w] obtain evs' m where
    b: "trace (snd (heartbeat n e u st proc k w)) = trace w @ evs'"
       "heartbeat_progress evs' = map (\<lambda>j. progress_of (clock e (clock_reads w + j) - st)) [0..<m]"
    by blast
  from a(1) b(1) have "evs' = evs" by simp
  with a b(2) show ?thesis unfolding heartbeats_def by blast
qed

lemma render_shape:
  "\<exists>hb. trace (snd (render n e u a b c w)) =
       trace w @ Popen (render_command u a b c) (render_env e) # hb \<and>
     heartbeats e u (clock e (clock_reads w)) (Suc (clock_reads w)) hb"
proof (cases "popen_result e (calls w)")
  case (Inl ex)
  then have "trace (snd (render n e u a b c w)) =
       trace w @ Popen (render_command u a b c) (render_env e) # []"
    by (simp add: render_spawn_fails)
  then show ?thesis using heartbeats_Nil by blast
next
  case (Inr proc)
  let ?w = "(spawned e u a b c w)\<lparr>clock_reads := Suc (clock_reads w)\<rparr>"
  from heartbeat_heartbeats [of n e u "clock e (clock_reads w)" proc 0 ?w]
  obtain hb where "trace (snd (heartbeat n e u (clock e (clock_reads w)) proc 0 ?w)) = trace ?w @ hb"
      "heartbeats e u (clock e (clock_reads w)) (clock_reads ?w) hb"
    by blast
  then show ?thesis
    by (simp add: render_spawn_ok [OF Inr] snd_bind_Returns)
qed

lemma process_job_shape:
  "\<exists>evs. trace (snd (process_job n e u w)) = trace w @ evs \<and> job_trace e u w evs"
proof (cases "find (\<lambda>r. uid r = u) (database e)")
  case None
  then have "trace (snd (process_job n e u w)) = trace w @ []"
    by (simp add: process_job_not_found)
  moreover have "job_trace e u w []" by (simp add: job_trace_def)
  ultimately show ?thesis by blast
next
  case (Some r)
  then have u: "uid r = u" by (rule find_uid)
  note handler = process_job_handler [OF Some, of n w]
  show ?thesis
  proof (cases "update_raises e (calls w)")
    case (Some ex)
    then have "trace (snd (process_job n e u w)) =
        trace w @ [RequestUpdate u 0 in_progress ''Calculando...'', RequestUpdate u 0 errored ''0'']"
      by (simp add: handler try_body_claim_fails u)
    moreover have "job_trace e u w
        [RequestUpdate u 0 in_progress ''Calculando...'', RequestUpdate u 0 errored ''0'']"
      using Some by (simp add: job_trace_def)
    ultimately show ?thesis by blast
  next
    case None
    let ?w1 = "updated (uid r) 0 in_progress ''Calculando...'' w"
    let ?a = "umap_path r" and ?b = "useq_path r" and ?c = "uconfig_path r"
    obtain res w2 where render: "render n e u ?a ?b ?c ?w1 = (res, w2)"
      by (cases "render n e u ?a ?b ?c ?w1") auto
    from render_shape [of n e u ?a ?b ?c ?w1] render obtain hb where
      w2: "trace w2 = trace w @ RequestUpdate u 0 in_progress ''Calculando...'' #
             Popen (render_command u ?a ?b ?c) (render_env e) # hb"
      and hb: "heartbeats e u (clock e (clock_reads w)) (Suc (clock_reads w)) hb"
      by (auto simp: u)
    have fin: ?thesis
      if "trace (snd (process_job n e u w)) = trace w2 @ fin"
        "set fin \<subseteq> {RequestUpdate u 100 finished ''N/A'', RequestUpdate u 0 errored ''0''}" for fin
    proof -
      have "trace (snd (process_job n e u w)) =
          trace w @ (RequestUpdate u 0 in_progress ''Calculando...'' #
             Popen (render_command u ?a ?b ?c) (render_env e) # hb @ fin)"
        using that(1) w2 by simp
      moreover have "job_trace e u w (RequestUpdate u 0 in_progress ''Calculando...'' #
             Popen (render_command u ?a ?b ?c) (render_env e) # hb @ fin)"
        unfolding job_trace_def using None hb that(2) by blast
      ultimately show ?thesis by blast
    qed
    show ?thesis
    proof (cases res)
      case Running
      with render have "try_body n e u r w = (Running, w2)"
        by (simp add: try_body_render_Running [OF None])
      then show ?thesis by (intro fin [of "[]"]) (simp_all add: handler)
    next
      case (Raises ex)
      with render have "try_body n e u r w = (Raises ex, w2)"
        by (simp add: try_body_render_Raises [OF None])
      then show ?thesis
        by (intro fin [of "[RequestUpdate u 0 errored ''0'']"]) (simp_all add: handler u)
    next
      case (Returns t)
      obtain returncode out err where t: "t = (returncode, out, err)" by (cases t) auto
      show ?thesis
      proof (cases "returncode = 0")
        case False
        from try_body_render_nonzero [OF None _ False, of n u r out err w2] render Returns t
        obtain ex where "try_body n e u r w = (Raises ex, w2)" by auto
        then show ?thesis
          by (intro fin [of "[RequestUpdate u 0 errored ''0'']"]) (simp_all add: handler u)
      next
        case True
        with render Returns t
        have tb: "try_body n e u r w = rrequest_update e r 100 finished ''N/A'' w2"
          by (simp add: try_body_render_zero [OF None])
        show ?thesis
        proof (cases "update_raises e (calls w2)")
          case None
          then show ?thesis
            by (intro fin [of "[RequestUpdate u 100 finished ''N/A'']"])
               (simp_all add: handler tb rrequest_update_eq u)
        next
          case (Some ex)
          then show ?thesis
            by (intro fin [of "[RequestUpdate u 100 finished ''N/A'', RequestUpdate u 0 errored ''0'']"])
               (simp_all add: handler tb rrequest_update_eq u)
        qed
      qed
    qed
  qed
qed

lemma heartbeat_fuel:
  "heartbeat (numeral v) e u st proc k w =
     (case poll_results proc k of
        Some returncode \<Rightarrow> (Returns returncode, w)
      | None \<Rightarrow>
          bind (time_time e w) (\<lambda>now w1.
            bind (send_status_update e u (progress_of (now - st)) (time_estimate_of (now - st))
                    in_progress w1) (\<lambda>_ w2.
              heartbeat (pred_numeral v) e u st proc (Suc k) (time_sleep 5 w2))))"
  by (simp add: numeral_eq_Suc Let_def split: option.split)

lemma worker_loop_fuel:
  "worker_loop (numeral v) n e w = bind (one_pass n e w) (\<lambda>_ w1. worker_loop (pred_numeral v) n e w1)"
  by (simp add: numeral_eq_Suc)

lemmas run_defs =
  one_pass_def client_get_all_requests_def eligible_uids_def WORKER_NAME_def
  process_job_def try_body_def from_db_def rrequest_update_def render_def bind_def
  subprocess_Popen_def time_time_def send_status_update_def client_update_request_def
  time_sleep_def decode_def progress_of_def time_estimate_of_def py_int_def str_int_def
  digits.simps Let_def heartbeat_fuel worker_loop_fuel

lemma job_trace_events:
  assumes "job_trace e u w evs"
  shows "\<forall>ev\<in>set evs. job_event e u ev"
proof -
  have hb_events: "\<forall>ev\<in>set hb. job_event e u ev"
    if "heartbeats e u (clock e (clock_reads w)) (Suc (clock_reads w)) hb" for hb
  proof
    fix ev assume "ev \<in> set hb"
    with that have "ev = Sleep 5 \<or> (\<exists>j\<ge>Suc (clock_reads w). ev = beat e u (clock e (clock_reads w)) j)"
      unfolding heartbeats_def by blast
    then show "job_event e u ev"
      unfolding job_event_def by (metis Suc_le_lessD)
  qed
  from assms consider "evs = []"
    | "evs = [RequestUpdate u 0 in_progress ''Calculando...'', RequestUpdate u 0 errored ''0'']"
    | a b c hb fin where
        "evs = RequestUpdate u 0 in_progress ''Calculando...'' #
               Popen (render_command u a b c) (render_env e) # hb @ fin"
        "heartbeats e u (clock e (clock_reads w)) (Suc (clock_reads w)) hb"
        "set fin \<subseteq> {RequestUpdate u 100 finished ''N/A'', RequestUpdate u 0 errored ''0''}"
    unfolding job_trace_def by blast
  then show ?thesis
  proof cases
    case 1
    then show ?thesis by simp
  next
    case 2
    then show ?thesis by (simp add: job_event_def)
  next
    case 3
    have "\<forall>ev\<in>set fin. job_event e u ev"
      using 3(3) by (auto simp: job_event_def)
    moreover have "job_event e u (Popen (render_command u a b c) (render_env e))"
      unfolding job_event_def by blast
    moreover have "job_event e u (RequestUpdate u 0 in_progress ''Calculando...'')"
      by (simp add: job_event_def)
    ultimately show ?thesis
      using hb_events [OF 3(2)] 3(1) by auto
  qed
qed

lemma process_job_events:
  "\<exists>evs. trace (snd (process_job n e u w)) = trace w @ evs \<and> (\<forall>ev\<in>set evs. job_event e u ev)"
  using process_job_shape [of n e u w] job_trace_events by blast

lemma process_jobs_events:
  "\<exists>evs. trace (snd (process_jobs n e uids w)) = trace w @ evs \<and>
     (\<forall>ev\<in>set evs. \<exists>u\<in>set uids. job_event e u ev)"
proof (induction uids arbitrary: w)
  case Nil
  show ?case by simp
next
  case (Cons u uids)
  obtain res w1 where job: "process_job n e u w = (res, w1)"
    by (cases "process_job n e u w") auto
  from process_job_events [of n e u w] job obtain evs1 where
    evs1: "trace w1 = trace w @ evs1" "\<forall>ev\<in>set evs1. job_event e u ev"
    by auto
  show ?case
  proof (cases res)
    case (Returns x)
    from Cons.IH [of w1] obtain evs2 where
      evs2: "trace (snd (process_jobs n e uids w1)) = trace w1 @ evs2"
        "\<forall>ev\<in>set evs2. \<exists>u\<in>set uids. job_event e u ev"
      by blast
    have "trace (snd (process_jobs n e (u # uids) w)) = trace w @ (evs1 @ evs2)"
      using job Returns evs1(1) evs2(1) by simp
    moreover have "\<forall>ev\<in>set (evs1 @ evs2). \<exists>u'\<in>set (u # uids). job_event e u' ev"
      using evs1(2) evs2(2) by auto
    ultimately show ?thesis by blast
  next
    case (Raises ex)
    with job evs1 have "trace (snd (process_jobs n e (u # uids) w)) = trace w @ evs1"
      by simp
    moreover have "\<forall>ev\<in>set evs1. \<exists>u'\<in>set (u # uids). job_event e u' ev"
      using evs1(2) by auto
    ultimately show ?thesis by blast
  next
    case Running
    with job evs1 have "trace (snd (process_jobs n e (u # uids) w)) = trace w @ evs1"
      by simp
    moreover have "\<forall>ev\<in>set evs1. \<exists>u'\<in>set (u # uids). job_event e u' ev"
      using evs1(2) by auto
    ultimately show ?thesis by blast
  qed
qed

lemma one_pass_fetch_fails:
  "get_all_requests e (calls w) = Inl ex \<Longrightarrow> one_pass n e w = (Raises ex, w\<lparr>calls := Suc (calls w)\<rparr>)"
  by (simp add: one_pass_def client_get_all_requests_def)

lemma one_pass_fetched:
  "get_all_requests e (calls w) = Inr rrequests \<Longrightarrow>
     one_pass n e w =
       bind (process_jobs n e (eligible_uids rrequests) (w\<lparr>calls := Suc (calls w)\<rparr>))
         (\<lambda>_ w2. (Returns (), time_sleep 10 w2))"
  by (simp add: one_pass_def client_get_all_requests_def)

lemma one_pass_events:
  assumes "get_all_requests e (calls w) = Inr rrequests"
  shows "\<exists>evs. trace (snd (one_pass n e w)) = trace w @ evs \<and>
     (\<forall>ev\<in>set evs. ev = Sleep 10 \<or> (\<exists>u\<in>set (eligible_uids rrequests). job_event e u ev))"
proof -
  let ?w1 = "w\<lparr>calls := Suc (calls w)\<rparr>"
  let ?uids = "eligible_uids rrequests"
  obtain res w2 where jobs: "process_jobs n e ?uids ?w1 = (res, w2)"
    by (cases "process_jobs n e ?uids ?w1") auto
  from process_jobs_events [of n e ?uids ?w1] jobs obtain evs where
    evs: "trace w2 = trace w @ evs" "\<forall>ev\<in>set evs. \<exists>u\<in>set ?uids. job_event e u ev"
    by auto
  show ?thesis
  proof (cases res)
    case (Returns x)
    with jobs evs(1) have "trace (snd (one_pass n e w)) = trace w @ (evs @ [Sleep 10])"
      by (simp add: one_pass_fetched [OF assms])
    moreover have "\<forall>ev\<in>set (evs @ [Sleep 10]). ev = Sleep 10 \<or> (\<exists>u\<in>set ?uids. job_event e u ev)"
      using evs(2) by auto
    ultimately show ?thesis by blast
  next
    case (Raises ex)
    with jobs evs(1) have "trace (snd (one_pass n e w)) = trace w @ evs"
      by (simp add: one_pass_fetched [OF assms])
    with evs(2) show ?thesis by blast
  next
    case Running
    with jobs evs(1) have "trace (snd (one_pass n e w)) = trace w @ evs"
      by (simp add: one_pass_fetched [OF assms])
    with evs(2) show ?thesis by blast
  qed
qed

lemma one_pass_events_any:
  "\<exists>evs. trace (snd (one_pass n e w)) = trace w @ evs \<and>
     (\<forall>ev\<in>set evs. ev = Sleep 10 \<or> (\<exists>u. job_event e u ev))"
proof (cases "get_all_requests e (calls w)")
  case (Inl ex)
  then have "trace (snd (one_pass n e w)) = trace w @ []"
    by (simp add: one_pass_fetch_fails)
  then show ?thesis by (metis empty_iff empty_set)
next
  case (Inr rrequests)
  from one_pass_events [OF Inr, of n] show ?thesis by blast
qed

lemma worker_loop_events:
  "\<exists>evs. trace (snd (worker_loop passes n e w)) = trace w @ evs \<and>
     (\<forall>ev\<in>set evs. ev = Sleep 10 \<or> (\<exists>u. job_event e u ev))"
proof (induction passes arbitrary: w)
  case 0
  show ?case by simp
next
  case (Suc passes)
  obtain res w1 where pass: "one_pass n e w = (res, w1)"
    by (cases "one_pass n e w") auto
  from one_pass_events_any [of n e w] pass obtain evs1 where
    evs1: "trace w1 = trace w @ evs1" "\<forall>ev\<in>set evs1. ev = Sleep 10 \<or> (\<exists>u. job_event e u ev)"
    by auto
  show ?case
  proof (cases res)
    case (Returns x)
    from Suc.IH [of w1] obtain evs2 where
      evs2: "trace (snd (worker_loop passes n e w1)) = trace w1 @ evs2"
        "\<forall>ev\<in>set evs2. ev = Sleep 10 \<or> (\<exists>u. job_event e u ev)"
      by blast
    have "trace (snd (worker_loop (Suc passes) n e w)) = trace w @ (evs1 @ evs2)"
      using pass Returns evs1(1) evs2(1) by simp
    moreover have "\<forall>ev\<in>set (evs1 @ evs2). ev = Sleep 10 \<or> (\<exists>u. job_event e u ev)"
      using evs1(2) evs2(2) by auto
    ultimately show ?thesis by blast
  next
    case (Raises ex)
    with pass evs1 have "trace (snd (worker_loop (Suc passes) n e w)) = trace w @ evs1"
      by simp
    with evs1(2) show ?thesis by blast
  next
    case Running
    with pass evs1 have "trace (snd (worker_loop (Suc passes) n e w)) = trace w @ evs1"
      by simp
    with evs1(2) show ?thesis by blast
  qed
qed

lemma job_event_RequestUpdate:
  "job_event e u (RequestUpdate u' p s t) \<Longrightarrow>
     u' = u \<and> (p, s) \<in> {(0, in_progress), (100, finished), (0, errored)}"
  by (auto simp: job_event_def beat_def)

lemma job_event_ClientUpdateRequest:
  "job_event e u (ClientUpdateRequest u' p s t) \<Longrightarrow>
     u' = u \<and> s = in_progress \<and> (\<exists>i j. i < j \<and> p = progress_of (clock e j - clock e i))"
  by (auto simp: job_event_def beat_def)

lemma job_event_Popen:
  "job_event e u (Popen command env) \<Longrightarrow> command ! 3 = ''-JobId='' @ u"
  by (auto simp: job_event_def beat_def render_command_def)

lemma eligible_uid_iff:
  "u \<in> set (eligible_uids rrequests) \<longleftrightarrow>
     (\<exists>r\<in>set rrequests. uid r = u \<and> worker r = WORKER_NAME \<and> status r = ready_to_start)"
  by (auto simp: eligible_uids_def)

lemma ineligible_uid_not_selected:
  assumes "distinct (map uid rrequests)" and "r \<in> set rrequests"
    and "worker r \<noteq> WORKER_NAME \<or> status r \<noteq> ready_to_start"
  shows "uid r \<notin> set (eligible_uids rrequests)"
proof
  assume "uid r \<in> set (eligible_uids rrequests)"
  then obtain r' where r': "r' \<in> set rrequests" "uid r' = uid r"
      "worker r' = WORKER_NAME" "status r' = ready_to_start"
    unfolding eligible_uid_iff by blast
  from assms(1) have "inj_on uid (set rrequests)" by (simp add: distinct_map)
  with r'(1,2) assms(2) have "r' = r" by (auto dest: inj_onD)
  with r'(3,4) assms(3) show False by simp
qed

lemma heartbeats_no_Popen:
  "heartbeats e u st c hb \<Longrightarrow> Popen command env \<notin> set hb"
  by (auto simp: heartbeats_def beat_def)

lemma heartbeat_progress_no_client:
  "\<forall>ev\<in>set evs. \<exists>u p s t. ev = RequestUpdate u p s t \<Longrightarrow> heartbeat_progress evs = []"
  by (induction evs) auto

lemma sorted_map_upt:
  assumes "\<And>i j. i \<le> j \<Longrightarrow> f i \<le> (f j :: int)"
  shows "sorted (map f [0..<m])"
  by (simp add: sorted_iff_nth_mono assms)

lemma job_trace_sorted:
  assumes "job_trace e u w evs" and "mono (clock e)"
  shows "sorted (heartbeat_progress evs)"
proof -
  from assms(1) consider "evs = []"
    | "evs = [RequestUpdate u 0 in_progress ''Calculando...'', RequestUpdate u 0 errored ''0'']"
    | a b c hb fin where
        "evs = RequestUpdate u 0 in_progress ''Calculando...'' #
               Popen (render_command u a b c) (render_env e) # hb @ fin"
        "heartbeats e u (clock e (clock_reads w)) (Suc (clock_reads w)) hb"
        "set fin \<subseteq> {RequestUpdate u 100 finished ''N/A'', RequestUpdate u 0 errored ''0''}"
    unfolding job_trace_def by blast
  then show ?thesis
  proof cases
    case 1
    then show ?thesis by simp
  next
    case 2
    then show ?thesis by simp
  next
    case 3
    from 3(2) obtain m where m: "heartbeat_progress hb =
        map (\<lambda>j. progress_of (clock e (Suc (clock_reads w) + j) - clock e (clock_reads w))) [0..<m]"
      unfolding heartbeats_def by blast
    have "heartbeat_progress fin = []"
      using 3(3) by (intro heartbeat_progress_no_client) auto
    with 3(1) have "heartbeat_progress evs = heartbeat_progress hb"
      by (simp add: heartbeat_progress_append)
    moreover have "sorted (heartbeat_progress hb)"
      unfolding m
    proof (rule sorted_map_upt)
      fix i j :: nat
      assume "i \<le> j"
      then have "clock e (Suc (clock_reads w) + i) \<le> clock e (Suc (clock_reads w) + j)"
        using assms(2) by (simp add: monoD)
      then show "progress_of (clock e (Suc (clock_reads w) + i) - clock e (clock_reads w))
          \<le> progress_of (clock e (Suc (clock_reads w) + j) - clock e (clock_reads w))"
        by (intro progress_of_mono) simp
    qed
    ultimately show ?thesis by simp
  qed
qed

lemma render_exception_handler:
  assumes "find (\<lambda>r. uid r = u) (database e) = Some rrequest"
      and "rrequest_update e rrequest 0 in_progress ''Calculando...'' w = (Returns (), w1)"
      and "render n e u (umap_path rrequest) (useq_path rrequest) (uconfig_path rrequest) w1 =
             (Raises ex, w2)"
  shows "trace (snd (process_job n e u w)) = trace w2 @ [RequestUpdate u 0 errored ''0''] \<and>
         fst (process_job n e u w) =
           (case update_raises e (calls w2) of None \<Rightarrow> Returns () | Some ex' \<Rightarrow> Raises ex')"
proof -
  have u: "uid rrequest = u" using assms(1) by (rule find_uid)
  from assms(2) have ok: "update_raises e (calls w) = None"
    and w1: "w1 = updated (uid rrequest) 0 in_progress ''Calculando...'' w"
    by (auto simp: rrequest_update_eq split: option.splits)
  from assms(3) have "try_body n e u rrequest w = (Raises ex, w2)"
    unfolding w1 by (rule try_body_render_Raises [OF ok])
  then show ?thesis
    by (simp add: process_job_handler [OF assms(1)] rrequest_update_eq u split: option.splits)
qed


subsection \<open>The claims\<close>

text \<open>
  C1.  One pass of the main loop, with the fetched requests carrying distinct identifiers:
  every status write of the pass (through the request object or through the client) goes
  to the identifier of a request whose worker is \<open>WORKER_NAME\<close> and whose status is
  \<open>ready_to_start\<close>, and every process is spawned for such an identifier.  A fetched
  request assigned to another worker, or in another status, is never written and never
  rendered.
\<close>

theorem ineligible_jobs_never_written:
  assumes "get_all_requests e (calls w) = Inr rrequests"
      and "distinct (map uid rrequests)"
      and "r \<in> set rrequests"
      and "worker r \<noteq> WORKER_NAME \<or> status r \<noteq> ready_to_start"
  shows "\<exists>evs. trace (snd (one_pass n e w)) = trace w @ evs \<and>
     (\<forall>u p s t. RequestUpdate u p s t \<in> set evs \<or> ClientUpdateRequest u p s t \<in> set evs \<longrightarrow>
        u \<in> set (eligible_uids rrequests) \<and> u \<noteq> uid r) \<and>
     (\<forall>command env. Popen command env \<in> set evs \<longrightarrow>
        (\<exists>u\<in>set (eligible_uids rrequests). command ! 3 = ''-JobId='' @ u) \<and>
        command ! 3 \<noteq> ''-JobId='' @ uid r)"
proof -
  from one_pass_events [OF assms(1), of n] obtain evs where
    evs: "trace (snd (one_pass n e w)) = trace w @ evs"
      "\<forall>ev\<in>set evs. ev = Sleep 10 \<or> (\<exists>u\<in>set (eligible_uids rrequests). job_event e u ev)"
    by blast
  have other: "uid r \<notin> set (eligible_uids rrequests)"
    using assms(2-4) by (rule ineligible_uid_not_selected)
  have writes: "u \<in> set (eligible_uids rrequests) \<and> u \<noteq> uid r"
    if "RequestUpdate u p s t \<in> set evs \<or> ClientUpdateRequest u p s t \<in> set evs" for u p s t
  proof -
    from that evs(2) obtain u' where "u' \<in> set (eligible_uids rrequests)"
        "job_event e u' (RequestUpdate u p s t) \<or> job_event e u' (ClientUpdateRequest u p s t)"
      by fastforce
    then have "u \<in> set (eligible_uids rrequests)"
      using job_event_RequestUpdate job_event_ClientUpdateRequest by blast
    with other show ?thesis by blast
  qed
  have spawns: "(\<exists>u\<in>set (eligible_uids rrequests). command ! 3 = ''-JobId='' @ u) \<and>
        command ! 3 \<noteq> ''-JobId='' @ uid r"
    if "Popen command env \<in> set evs" for command env
  proof -
    from that evs(2) obtain u where u: "u \<in> set (eligible_uids rrequests)"
        "job_event e u (Popen command env)"
      by fastforce
    then have "command ! 3 = ''-JobId='' @ u" by (simp add: job_event_Popen)
    with u(1) other show ?thesis by auto
  qed
  from evs(1) writes spawns show ?thesis by blast
qed

text \<open>An instance: of two fetched requests, the one of the other machine is left alone.\<close>

theorem ineligible_jobs_never_written_witness:
  "\<exists>evs. trace (snd (one_pass 5 env_ok w0)) = trace w0 @ evs \<and>
     RequestUpdate ''J1'' 100 finished ''N/A'' \<in> set evs \<and>
     (\<forall>u p s t. RequestUpdate u p s t \<in> set evs \<or> ClientUpdateRequest u p s t \<in> set evs \<longrightarrow>
        u \<in> set (eligible_uids [job1, job2]) \<and> u \<noteq> uid job2)"
proof -
  have fetch: "get_all_requests env_ok (calls w0) = Inr [job1, job2]"
    by (simp add: env_ok_def)
  have uids: "distinct (map uid [job1, job2])"
    by (simp add: job1_def job2_def)
  have member: "job2 \<in> set [job1, job2]" by simp
  have other: "worker job2 \<noteq> WORKER_NAME \<or> status job2 \<noteq> ready_to_start"
    by (simp add: job2_def WORKER_NAME_def)
  from ineligible_jobs_never_written [OF fetch uids member other, of 5]
  obtain evs where evs: "trace (snd (one_pass 5 env_ok w0)) = trace w0 @ evs"
    "\<forall>u p s t. RequestUpdate u p s t \<in> set evs \<or> ClientUpdateRequest u p s t \<in> set evs \<longrightarrow>
        u \<in> set (eligible_uids [job1, job2]) \<and> u \<noteq> uid job2"
    by blast
  have "trace (snd (one_pass 5 env_ok w0)) =
      [RequestUpdate ''J1'' 0 in_progress ''Calculando...'',
       Popen (render_command ''J1'' ''/Game/Map'' ''/Game/Seq'' ''/Game/Cfg'') (render_env env_ok),
       ClientUpdateRequest ''J1'' 8 in_progress ''55s'', Sleep 5,
       ClientUpdateRequest ''J1'' 16 in_progress ''50s'', Sleep 5,
       RequestUpdate ''J1'' 100 finished ''N/A'', Sleep 10]"
    by (simp add: run_defs env_ok_def proc_ok_def job1_def job2_def w0_def)
  with evs(1) have "RequestUpdate ''J1'' 100 finished ''N/A'' \<in> set evs"
    by (simp add: w0_def)
  with evs show ?thesis by blast
qed

text \<open>
  C2.  The claim does not hold of the code.  With two eligible requests and a job source
  that rejects every status write, the write that claims the first job raises inside the
  \<open>try\<close> statement, the handler's own write of \<open>errored\<close> raises again outside of it, and
  that exception leaves the loop over the jobs and the main loop: the second job is never
  processed and the worker ends in the first of its passes.
\<close>

theorem job_failure_terminates_worker:
  "worker_loop 3 5 env_down w0 =
     (Raises (OtherException ''ConnectionError''),
      \<lparr>calls = 3, clock_reads = 0,
       trace = [RequestUpdate ''J1'' 0 in_progress ''Calculando...'',
                RequestUpdate ''J1'' 0 errored ''0'']\<rparr>)"
  by (simp add: run_defs env_down_def env_ok_def job1_def job3_def w0_def)

text \<open>
  C3.  For a job found in the database and claimed successfully: when \<open>render\<close> returns
  exit code 0 and the final write succeeds, the handling of the job returns normally and
  its last status write is \<open>finished\<close> with progress 100; when \<open>render\<close> returns any other
  exit code, its last status write is \<open>errored\<close> with progress 0.
\<close>

theorem exit_code_decides_final_update:
  assumes "find (\<lambda>r. uid r = u) (database e) = Some rrequest"
      and "rrequest_update e rrequest 0 in_progress ''Calculando...'' w = (Returns (), w1)"
      and "render n e u (umap_path rrequest) (useq_path rrequest) (uconfig_path rrequest) w1 =
             (Returns (returncode, out, err), w2)"
  shows "(returncode = 0 \<and> update_raises e (calls w2) = None \<longrightarrow>
            fst (process_job n e u w) = Returns () \<and>
            trace (snd (process_job n e u w)) = trace w2 @ [RequestUpdate u 100 finished ''N/A''])
       \<and> (returncode \<noteq> 0 \<longrightarrow>
            trace (snd (process_job n e u w)) = trace w2 @ [RequestUpdate u 0 errored ''0''])"
proof -
  have u: "uid rrequest = u" using assms(1) by (rule find_uid)
  from assms(2) have ok: "update_raises e (calls w) = None"
    and w1: "w1 = updated (uid rrequest) 0 in_progress ''Calculando...'' w"
    by (auto simp: rrequest_update_eq split: option.splits)
  note handler = process_job_handler [OF assms(1), of n w]
  note render = assms(3) [unfolded w1]
  show ?thesis
  proof (intro conjI impI)
    assume z: "returncode = 0 \<and> update_raises e (calls w2) = None"
    with render have "try_body n e u rrequest w = rrequest_update e rrequest 100 finished ''N/A'' w2"
      by (simp add: try_body_render_zero [OF ok])
    with z show "fst (process_job n e u w) = Returns ()"
      and "trace (snd (process_job n e u w)) = trace w2 @ [RequestUpdate u 100 finished ''N/A'']"
      by (simp_all add: handler rrequest_update_eq u)
  next
    assume "returncode \<noteq> 0"
    from try_body_render_nonzero [OF ok render this]
    obtain ex where "try_body n e u rrequest w = (Raises ex, w2)" by blast
    then show "trace (snd (process_job n e u w)) = trace w2 @ [RequestUpdate u 0 errored ''0'']"
      by (simp add: handler u)
  qed
qed

text \<open>An instance: one process exiting with code 0, another one with code 1.\<close>

theorem exit_code_decides_final_update_witness:
  "last (trace (snd (process_job 5 env_ok ''J1'' w0))) = RequestUpdate ''J1'' 100 finished ''N/A'' \<and>
   last (trace (snd (process_job 5 env_fail ''J1'' w0))) = RequestUpdate ''J1'' 0 errored ''0''"
proof -
  let ?w1 = "\<lparr>calls = 1, clock_reads = 0, trace = [RequestUpdate ''J1'' 0 in_progress ''Calculando...'']\<rparr>"
  let ?r = "\<lambda>e. render 5 e ''J1'' (umap_path job1) (useq_path job1) (uconfig_path job1) ?w1"
  have found: "find (\<lambda>r. uid r = ''J1'') (database env_ok) = Some job1"
    by (simp add: env_ok_def job1_def)
  have claim: "rrequest_update env_ok job1 0 in_progress ''Calculando...'' w0 = (Returns (), ?w1)"
    by (simp add: rrequest_update_def env_ok_def job1_def w0_def)
  have "fst (?r env_ok) = Returns (0, ''done'', [])"
    by (simp add: run_defs env_ok_def proc_ok_def)
  then have render: "?r env_ok = (Returns (0, ''done'', []), snd (?r env_ok))"
    by (metis prod.collapse)
  have "update_raises env_ok (calls (snd (?r env_ok))) = None"
    by (simp add: env_ok_def)
  with exit_code_decides_final_update [OF found claim render]
  have a: "last (trace (snd (process_job 5 env_ok ''J1'' w0))) = RequestUpdate ''J1'' 100 finished ''N/A''"
    by simp
  have found': "find (\<lambda>r. uid r = ''J1'') (database env_fail) = Some job1"
    by (simp add: env_fail_def env_ok_def job1_def)
  have claim': "rrequest_update env_fail job1 0 in_progress ''Calculando...'' w0 = (Returns (), ?w1)"
    by (simp add: rrequest_update_def env_fail_def env_ok_def job1_def w0_def)
  have "fst (?r env_fail) = Returns (1, [], ''crash'')"
    by (simp add: run_defs env_fail_def env_ok_def)
  then have render': "?r env_fail = (Returns (1, [], ''crash''), snd (?r env_fail))"
    by (metis prod.collapse)
  from exit_code_decides_final_update [OF found' claim' render']
  have b: "last (trace (snd (process_job 5 env_fail ''J1'' w0))) = RequestUpdate ''J1'' 0 errored ''0''"
    by simp
  from a b show ?thesis by simp
qed

text \<open>
  C4.  In the calls made while handling one job, a process is spawned at one place only:
  right after the write of status \<open>in_progress\<close>, progress 0 and the placeholder estimate,
  which is the first call and has returned without an exception.
\<close>

theorem claim_write_precedes_spawn:
  "\<exists>evs. trace (snd (process_job n e u w)) = trace w @ evs \<and>
     (\<forall>i command env. i < length evs \<and> evs ! i = Popen command env \<longrightarrow>
        i = 1 \<and> evs ! 0 = RequestUpdate u 0 in_progress ''Calculando...'' \<and>
        update_raises e (calls w) = None)"
proof -
  from process_job_shape [of n e u w] obtain evs where
    evs: "trace (snd (process_job n e u w)) = trace w @ evs" and shape: "job_trace e u w evs"
    by blast
  have "i = 1 \<and> evs ! 0 = RequestUpdate u 0 in_progress ''Calculando...'' \<and>
        update_raises e (calls w) = None"
    if i: "i < length evs" "evs ! i = Popen command env" for i command env
  proof -
    from shape consider "evs = []"
      | "evs = [RequestUpdate u 0 in_progress ''Calculando...'', RequestUpdate u 0 errored ''0'']"
      | a b c hb fin where
          "update_raises e (calls w) = None"
          "evs = RequestUpdate u 0 in_progress ''Calculando...'' #
                 Popen (render_command u a b c) (render_env e) # hb @ fin"
          "heartbeats e u (clock e (clock_reads w)) (Suc (clock_reads w)) hb"
          "set fin \<subseteq> {RequestUpdate u 100 finished ''N/A'', RequestUpdate u 0 errored ''0''}"
      unfolding job_trace_def by blast
    then show ?thesis
    proof cases
      case 1
      with i show ?thesis by simp
    next
      case 2
      with i show ?thesis by (cases i) (auto simp: nth_Cons')
    next
      case 3
      have rest: "Popen command env \<notin> set (hb @ fin)"
        using heartbeats_no_Popen [OF 3(3)] 3(4) by auto
      have "i = 1"
      proof (rule ccontr)
        assume "i \<noteq> 1"
        moreover have "i \<noteq> 0" using i(2) 3(2) by (cases i) auto
        ultimately obtain k where k: "i = Suc (Suc k)" by (metis One_nat_def not0_implies_Suc)
        with i 3(2) have "k < length (hb @ fin)" "(hb @ fin) ! k = Popen command env"
          by simp_all
        then have "Popen command env \<in> set (hb @ fin)" by (metis nth_mem)
        with rest show False by contradiction
      qed
      with 3(1,2) show ?thesis by simp
    qed
  qed
  with evs show ?thesis by blast
qed

text \<open>An instance: the first two calls of a successful job.\<close>

theorem claim_write_precedes_spawn_witness:
  "\<exists>evs. trace (snd (process_job 5 env_ok ''J1'' w0)) = trace w0 @ evs \<and>
     evs ! 1 = Popen (render_command ''J1'' ''/Game/Map'' ''/Game/Seq'' ''/Game/Cfg'') (render_env env_ok) \<and>
     evs ! 0 = RequestUpdate ''J1'' 0 in_progress ''Calculando...'' \<and>
     update_raises env_ok (calls w0) = None"
proof -
  from claim_write_precedes_spawn [of 5 env_ok "''J1''" w0]
  obtain evs where evs: "trace (snd (process_job 5 env_ok ''J1'' w0)) = trace w0 @ evs"
    "\<forall>i command env. i < length evs \<and> evs ! i = Popen command env \<longrightarrow>
        i = 1 \<and> evs ! 0 = RequestUpdate ''J1'' 0 in_progress ''Calculando...'' \<and>
        update_raises env_ok (calls w0) = None"
    by blast
  have "trace (snd (process_job 5 env_ok ''J1'' w0)) =
      [RequestUpdate ''J1'' 0 in_progress ''Calculando...'',
       Popen (render_command ''J1'' ''/Game/Map'' ''/Game/Seq'' ''/Game/Cfg'') (render_env env_ok),
       ClientUpdateRequest ''J1'' 8 in_progress ''55s'', Sleep 5,
       ClientUpdateRequest ''J1'' 16 in_progress ''50s'', Sleep 5,
       RequestUpdate ''J1'' 100 finished ''N/A'']"
    by (simp add: run_defs env_ok_def proc_ok_def job1_def job2_def w0_def)
  with evs(1) have spawn: "1 < length evs \<and>
      evs ! 1 = Popen (render_command ''J1'' ''/Game/Map'' ''/Game/Seq'' ''/Game/Cfg'') (render_env env_ok)"
    by (simp add: w0_def)
  with evs(2) have "evs ! 0 = RequestUpdate ''J1'' 0 in_progress ''Calculando...'' \<and>
        update_raises env_ok (calls w0) = None"
    by blast
  with evs(1) spawn show ?thesis by blast
qed





text \<open>
  C7 (amended).  Provided the readings of the clock never decrease: every progress value
  the worker writes lies between 0 and 100, and the progress values of the heartbeats
  sent for one job never decrease.
\<close>

theorem progress_in_range_with_steady_clock:
  assumes "mono (clock e)"
  shows "(\<exists>evs. trace (snd (worker_loop passes n e w)) = trace w @ evs \<and>
            (\<forall>u p s t. RequestUpdate u p s t \<in> set evs \<or> ClientUpdateRequest u p s t \<in> set evs \<longrightarrow>
               0 \<le> p \<and> p \<le> 100))
       \<and> (\<exists>evs. trace (snd (process_job n e uid' w')) = trace w' @ evs \<and>
            sorted (heartbeat_progress evs))"
proof
  from worker_loop_events [of passes n e w] obtain evs where
    evs: "trace (snd (worker_loop passes n e w)) = trace w @ evs"
      "\<forall>ev\<in>set evs. ev = Sleep 10 \<or> (\<exists>u. job_event e u ev)"
    by blast
  have "0 \<le> p \<and> p \<le> 100"
    if "RequestUpdate u p s t \<in> set evs \<or> ClientUpdateRequest u p s t \<in> set evs" for u p s t
    using that
  proof
    assume "RequestUpdate u p s t \<in> set evs"
    with evs(2) obtain u' where "job_event e u' (RequestUpdate u p s t)" by fastforce
    from job_event_RequestUpdate [OF this] show ?thesis by auto
  next
    assume "ClientUpdateRequest u p s t \<in> set evs"
    with evs(2) obtain u' where "job_event e u' (ClientUpdateRequest u p s t)" by fastforce
    from job_event_ClientUpdateRequest [OF this] obtain i j where
      ij: "i < j" "p = progress_of (clock e j - clock e i)"
      by blast
    from ij(1) assms have "0 \<le> clock e j - clock e i" by (simp add: monoD)
    with ij(2) show ?thesis by (simp add: progress_of_nonneg progress_of_le_100)
  qed
  with evs(1) show "\<exists>evs. trace (snd (worker_loop passes n e w)) = trace w @ evs \<and>
            (\<forall>u p s t. RequestUpdate u p s t \<in> set evs \<or> ClientUpdateRequest u p s t \<in> set evs \<longrightarrow>
               0 \<le> p \<and> p \<le> 100)"
    by blast
next
  from process_job_shape [of n e uid' w'] obtain evs where
    "trace (snd (process_job n e uid' w')) = trace w' @ evs" "job_trace e uid' w' evs"
    by blast
  with job_trace_sorted [OF _ assms] show "\<exists>evs. trace (snd (process_job n e uid' w')) = trace w' @ evs \<and>
            sorted (heartbeat_progress evs)"
    by blast
qed

text \<open>An instance: the heartbeats of a job under a steady clock carry 8 and then 16.\<close>

theorem progress_in_range_with_steady_clock_witness:
  "\<exists>evs. trace (snd (process_job 5 env_ok ''J1'' w0)) = trace w0 @ evs \<and>
     heartbeat_progress evs = [8, 16] \<and> sorted (heartbeat_progress evs)"
proof -
  have steady: "mono (clock env_ok)"
    by (simp add: env_ok_def mono_def)
  from progress_in_range_with_steady_clock [OF steady, where passes = 0 and w = w0 and n = 5 and uid' = "''J1''" and w' = w0]
  obtain evs where evs: "trace (snd (process_job 5 env_ok ''J1'' w0)) = trace w0 @ evs"
    "sorted (heartbeat_progress evs)"
    by blast
  have "trace (snd (process_job 5 env_ok ''J1'' w0)) =
      [RequestUpdate ''J1'' 0 in_progress ''Calculando...'',
       Popen (render_command ''J1'' ''/Game/Map'' ''/Game/Seq'' ''/Game/Cfg'') (render_env env_ok),
       ClientUpdateRequest ''J1'' 8 in_progress ''55s'', Sleep 5,
       ClientUpdateRequest ''J1'' 16 in_progress ''50s'', Sleep 5,
       RequestUpdate ''J1'' 100 finished ''N/A'']"
    by (simp add: run_defs env_ok_def proc_ok_def job1_def job2_def w0_def)
  with evs(1) have "heartbeat_progress evs = [8, 16]"
    by (simp add: w0_def)
  with evs show ?thesis by blast
qed

text \<open>
  C7 as stated fails: progress has an upper clamp only, and \<open>time.time()\<close> is the wall
  clock.  When the clock is set back by 90 seconds between two heartbeats, the second
  heartbeat carries a progress of -100, after a first one of 50.
\<close>

theorem progress_with_clock_set_back_counterexample:
  "trace (snd (render 5 env_back ''J1'' ''/Game/Map'' ''/Game/Seq'' ''/Game/Cfg'' w0)) =
     [Popen (render_command ''J1'' ''/Game/Map'' ''/Game/Seq'' ''/Game/Cfg'') (render_env env_back),
      ClientUpdateRequest ''J1'' 50 in_progress ''30s'', Sleep 5,
      ClientUpdateRequest ''J1'' (- 100) in_progress ''120s'', Sleep 5]"
  by (simp add: run_defs env_back_def env_ok_def proc_ok_def w0_def)

text \<open>
  C8.  \<open>render\<close> returns only after a call of \<open>poll()\<close> has reported the exit of the
  process, every earlier call having found it alive, and what it returns is the exit
  code together with the captured standard output and standard error of that process.
  Conversely, when the process exits and the heartbeats sent until then succeed, \<open>render\<close>
  does return that triple.
\<close>

theorem render_returns_exit_triple:
  assumes "popen_result e (calls w) = Inr proc"
  shows "(\<forall>returncode out err. fst (render n e u umap useq uconfig w) = Returns (returncode, out, err) \<longrightarrow>
            (\<exists>k<n. (\<forall>j<k. poll_results proc j = None) \<and> poll_results proc k = Some returncode) \<and>
            out = stdout_data proc \<and> err = stderr_data proc)
       \<and> (\<forall>k returncode. k < n \<and>
            (\<forall>j<k. poll_results proc j = None \<and> update_raises e (Suc (calls w) + j) = None) \<and>
            poll_results proc k = Some returncode \<longrightarrow>
            fst (render n e u umap useq uconfig w) = Returns (returncode, stdout_data proc, stderr_data proc))"
proof (intro conjI allI impI)
  let ?w = "(spawned e u umap useq uconfig w)\<lparr>clock_reads := Suc (clock_reads w)\<rparr>"
  let ?h = "heartbeat n e u (clock e (clock_reads w)) proc 0 ?w"
  have fst_render: "fst (render n e u umap useq uconfig w) =
      map_outcome (\<lambda>returncode. (returncode, stdout_data proc, stderr_data proc)) (fst ?h)"
    by (simp add: render_spawn_ok [OF assms] fst_bind_Returns)
  {
    fix returncode out err
    assume ret: "fst (render n e u umap useq uconfig w) = Returns (returncode, out, err)"
    with fst_render have h: "fst ?h = Returns returncode" and oe: "out = stdout_data proc" "err = stderr_data proc"
      by (cases "fst ?h"; simp)+
    from heartbeat_Returns_exited [OF h]
    show "\<exists>k<n. (\<forall>j<k. poll_results proc j = None) \<and> poll_results proc k = Some returncode"
      by simp
    from oe show "out = stdout_data proc" "err = stderr_data proc" by simp_all
  }
  {
    fix k returncode
    assume a: "k < n \<and>
            (\<forall>j<k. poll_results proc j = None \<and> update_raises e (Suc (calls w) + j) = None) \<and>
            poll_results proc k = Some returncode"
    then have "\<forall>j<k. poll_results proc (0 + j) = None \<and> update_raises e (calls ?w + j) = None"
      by simp
    moreover have "poll_results proc (0 + k) = Some returncode" using a by simp
    moreover have "k < n" using a by simp
    ultimately have "fst ?h = Returns returncode"
      using heartbeat_exits_Returns by blast
    with fst_render
    show "fst (render n e u umap useq uconfig w) = Returns (returncode, stdout_data proc, stderr_data proc)"
      by simp
  }
qed

text \<open>An instance: the process exits with code 0 on the third poll.\<close>

theorem render_returns_exit_triple_witness:
  "fst (render 5 env_ok ''J1'' ''/Game/Map'' ''/Game/Seq'' ''/Game/Cfg'' w0) = Returns (0, ''done'', '''')"
proof -
  have spawn: "popen_result env_ok (calls w0) = Inr proc_ok" by (simp add: env_ok_def)
  have "(2::nat) < 5 \<and>
        (\<forall>j<2. poll_results proc_ok j = None \<and> update_raises env_ok (Suc (calls w0) + j) = None) \<and>
        poll_results proc_ok 2 = Some 0"
    by (simp add: env_ok_def proc_ok_def)
  with render_returns_exit_triple [OF spawn, of 5 "''J1''" "''/Game/Map''" "''/Game/Seq''" "''/Game/Cfg''"]
  have "fst (render 5 env_ok ''J1'' ''/Game/Map'' ''/Game/Seq'' ''/Game/Cfg'' w0) =
      Returns (0, stdout_data proc_ok, stderr_data proc_ok)"
    by blast
  then show ?thesis by (simp add: proc_ok_def)
qed

text \<open>
  C9 (amended).  The time estimate of a heartbeat is \<open>int(60 - elapsed)\<close> followed by
  \<open>s\<close>, with no lower clamp.  On a heartbeat that finds the process alive 61 seconds or
  more after the spawn, the worker sends progress 100 and a negative estimate: a minus
  sign, the decimal digits of the whole seconds beyond 60, and \<open>s\<close>.  Strictly between
  60 and 61 seconds \<open>int\<close> truncates the negative fraction to zero and the estimate is
  \<open>0s\<close>.
\<close>

theorem late_heartbeat_time_estimate:
  assumes "poll_results proc k = None"
  shows "(61 \<le> clock e (clock_reads w) - start_time \<longrightarrow>
           (\<exists>rest. trace (snd (heartbeat (Suc n) e u start_time proc k w)) =
              trace w @ ClientUpdateRequest u 100 in_progress
                (CHR ''-'' # digits (nat \<lfloor>clock e (clock_reads w) - start_time - 60\<rfloor>) @ ''s'') # rest))
       \<and> (60 < clock e (clock_reads w) - start_time \<and> clock e (clock_reads w) - start_time < 61 \<longrightarrow>
           (\<exists>rest. trace (snd (heartbeat (Suc n) e u start_time proc k w)) =
              trace w @ ClientUpdateRequest u 100 in_progress ''0s'' # rest))"
  using heartbeat_first_beat [OF assms, of n e u start_time w]
  by (auto simp: beat_def time_estimate_late time_estimate_just_late progress_of_late)

text \<open>An instance: 65 seconds after the spawn the estimate sent is \<open>-5s\<close>.\<close>

theorem late_heartbeat_time_estimate_witness:
  "\<exists>rest. trace (snd (heartbeat (Suc 0) env_ok ''J1'' 935 proc_ok 0 w0)) =
      trace w0 @ ClientUpdateRequest ''J1'' 100 in_progress ''-5s'' # rest"
proof -
  have alive: "poll_results proc_ok 0 = None" by (simp add: proc_ok_def)
  have late: "61 \<le> clock env_ok (clock_reads w0) - 935" by (simp add: env_ok_def w0_def)
  have "digits (nat \<lfloor>clock env_ok (clock_reads w0) - 935 - 60\<rfloor>) = ''5''"
    by (simp add: env_ok_def w0_def digits.simps)
  with late_heartbeat_time_estimate [OF alive, of env_ok w0 935 0 "''J1''"] late
  show ?thesis by simp
qed

text \<open>
  C9 as stated fails: with the clock 60.5 seconds past the spawn, the process has run
  longer than 60 seconds and the estimate sent is \<open>0s\<close>, which is not negative.
\<close>

theorem heartbeat_after_sixty_seconds_counterexample:
  "clock env_late 1 - clock env_late 0 = 121 / 2 \<and>
   trace (snd (render 5 env_late ''J1'' ''/Game/Map'' ''/Game/Seq'' ''/Game/Cfg'' w0)) =
     [Popen (render_command ''J1'' ''/Game/Map'' ''/Game/Seq'' ''/Game/Cfg'') (render_env env_late),
      ClientUpdateRequest ''J1'' 100 in_progress ''0s'', Sleep 5,
      ClientUpdateRequest ''J1'' 100 in_progress ''0s'', Sleep 5]"
  by (simp add: render_def bind_def env_late_def env_ok_def w0_def subprocess_Popen_def time_time_def
      proc_ok_def send_status_update_def client_update_request_def time_sleep_def numeral_nat Let_def
      progress_of_def time_estimate_of_def py_int_def str_int_def digits.simps)

text \<open>
  C10.  Whatever the environment does and however long the worker runs, every status
  write it makes carries \<open>in_progress\<close>, \<open>finished\<close> or \<open>errored\<close>, never
  \<open>ready_to_start\<close>.
\<close>

theorem never_writes_ready_to_start:
  "\<exists>evs. trace (snd (worker_loop passes n e w)) = trace w @ evs \<and>
     (\<forall>u p s t. RequestUpdate u p s t \<in> set evs \<or> ClientUpdateRequest u p s t \<in> set evs \<longrightarrow>
        s \<in> {in_progress, finished, errored} \<and> s \<noteq> ready_to_start)"
proof -
  from worker_loop_events [of passes n e w] obtain evs where
    evs: "trace (snd (worker_loop passes n e w)) = trace w @ evs"
      "\<forall>ev\<in>set evs. ev = Sleep 10 \<or> (\<exists>u. job_event e u ev)"
    by blast
  have "s \<in> {in_progress, finished, errored} \<and> s \<noteq> ready_to_start"
    if "RequestUpdate u p s t \<in> set evs \<or> ClientUpdateRequest u p s t \<in> set evs" for u p s t
  proof -
    from that evs(2) obtain u' where
        "job_event e u' (RequestUpdate u p s t) \<or> job_event e u' (ClientUpdateRequest u p s t)"
      by fastforce
    then show ?thesis
      using job_event_RequestUpdate [of e u' u p s t] job_event_ClientUpdateRequest [of e u' u p s t]
      by auto
  qed
  with evs(1) show ?thesis by blast
qed

text \<open>An instance: the writes of one pass over one eligible job.\<close>

theorem never_writes_ready_to_start_witness:
  "\<exists>evs. trace (snd (worker_loop 1 5 env_ok w0)) = trace w0 @ evs \<and>
     RequestUpdate ''J1'' 0 in_progress ''Calculando...'' \<in> set evs \<and>
     ClientUpdateRequest ''J1'' 8 in_progress ''55s'' \<in> set evs \<and>
     RequestUpdate ''J1'' 100 finished ''N/A'' \<in> set evs \<and>
     (\<forall>u p s t. RequestUpdate u p s t \<in> set evs \<or> ClientUpdateRequest u p s t \<in> set evs \<longrightarrow>
        s \<in> {in_progress, finished, errored} \<and> s \<noteq> ready_to_start)"
proof -
  from never_writes_ready_to_start [of 1 5 env_ok w0]
  obtain evs where evs: "trace (snd (worker_loop 1 5 env_ok w0)) = trace w0 @ evs"
    "\<forall>u p s t. RequestUpdate u p s t \<in> set evs \<or> ClientUpdateRequest u p s t \<in> set evs \<longrightarrow>
        s \<in> {in_progress, finished, errored} \<and> s \<noteq> ready_to_start"
    by blast
  have "trace (snd (worker_loop 1 5 env_ok w0)) =
      [RequestUpdate ''J1'' 0 in_progress ''Calculando...'',
       Popen (render_command ''J1'' ''/Game/Map'' ''/Game/Seq'' ''/Game/Cfg'') (render_env env_ok),
       ClientUpdateRequest ''J1'' 8 in_progress ''55s'', Sleep 5,
       ClientUpdateRequest ''J1'' 16 in_progress ''50s'', Sleep 5,
       RequestUpdate ''J1'' 100 finished ''N/A'', Sleep 10]"
    by (simp add: run_defs env_ok_def proc_ok_def job1_def job2_def w0_def)
  with evs(1) have "RequestUpdate ''J1'' 0 in_progress ''Calculando...'' \<in> set evs"
    "ClientUpdateRequest ''J1'' 8 in_progress ''55s'' \<in> set evs"
    "RequestUpdate ''J1'' 100 finished ''N/A'' \<in> set evs"
    by (simp_all add: w0_def)
  with evs show ?thesis by blast
qed

end
